theory Spec2Isabelle
  imports Complex_Main "HOL-Library.Word"
begin

section \<open>Strings\<close>

text \<open>
  A JavaScript string is a sequence of 16-bit code units. \<open>js\<close> turns an ASCII literal
  into such a sequence. \<open>is_space\<close> is the class \<^verbatim>\<open>\s\<close> of regular expressions, which
  is also the set of characters that \<^verbatim>\<open>String.prototype.trim\<close> strips (WhiteSpace and
  LineTerminator of ECMAScript).
\<close>

type_synonym jschar = "16 word"
type_synonym jsstring = "jschar list"

definition js :: "string \<Rightarrow> jsstring" where
  "js s = map (\<lambda>c. of_char c) s"

definition is_space :: "jschar \<Rightarrow> bool" where
  "is_space c \<longleftrightarrow>
     c = 0x09 \<or> c = 0x0A \<or> c = 0x0B \<or> c = 0x0C \<or> c = 0x0D \<or> c = 0x20 \<or> c = 0xA0 \<or>
     c = 0x1680 \<or> (0x2000 \<le> c \<and> c \<le> 0x200A) \<or> c = 0x2028 \<or> c = 0x2029 \<or>
     c = 0x202F \<or> c = 0x205F \<or> c = 0x3000 \<or> c = 0xFEFF"

definition trim :: "jsstring \<Rightarrow> jsstring" where
  "trim s = rev (dropWhile is_space (rev (dropWhile is_space s)))"

definition dquote :: jschar where "dquote = 0x22"
definition squote :: jschar where "squote = 0x27"
definition amp :: jschar where "amp = 0x26"
definition lt :: jschar where "lt = 0x3C"
definition gt :: jschar where "gt = 0x3E"
definition nl :: jschar where "nl = 0x0A"

section \<open>tokenize\<close>

text \<open>
  \<^verbatim>\<open>const re = /"([^"]*)"|'([^']*)'|(\S+)/g;\<close>

  \<open>quoted q\<close> is an alternative \<^verbatim>\<open>q([^q]*)q\<close> tried at the head of the text: after the
  opening quote the class takes every character up to the next quote, and the match fails
  when there is none. \<open>bare\<close> is \<^verbatim>\<open>(\S+)\<close>. Each returns the captured group and the text
  after the match. \<open>match_at\<close> tries the three alternatives in the order of the pattern,
  and \<open>re_exec\<close> is one call of \<^verbatim>\<open>re.exec(s)\<close> on the text from \<^verbatim>\<open>lastIndex\<close> on: the match
  at the leftmost position that has one, or \<open>None\<close> for \<^verbatim>\<open>null\<close>.
\<close>

fun quoted :: "jschar \<Rightarrow> jsstring \<Rightarrow> (jsstring \<times> jsstring) option" where
  "quoted q [] = None"
| "quoted q (c # t) =
     (if c = q then
        (case dropWhile (\<lambda>x. x \<noteq> q) t of
           [] \<Rightarrow> None
         | _ # rest \<Rightarrow> Some (takeWhile (\<lambda>x. x \<noteq> q) t, rest))
      else None)"

definition bare :: "jsstring \<Rightarrow> (jsstring \<times> jsstring) option" where
  "bare s =
     (case takeWhile (\<lambda>x. \<not> is_space x) s of
        [] \<Rightarrow> None
      | c # w \<Rightarrow> Some (c # w, dropWhile (\<lambda>x. \<not> is_space x) s))"

definition match_at :: "jsstring \<Rightarrow> (jsstring \<times> jsstring) option" where
  "match_at s =
     (case quoted dquote s of
        Some m \<Rightarrow> Some m
      | None \<Rightarrow> (case quoted squote s of Some m \<Rightarrow> Some m | None \<Rightarrow> bare s))"

fun re_exec :: "jsstring \<Rightarrow> (jsstring \<times> jsstring) option" where
  "re_exec [] = None"
| "re_exec (c # t) =
     (case match_at (c # t) of Some m \<Rightarrow> Some m | None \<Rightarrow> re_exec t)"

text \<open>
  \<^verbatim>\<open>while ((m = re.exec(s))) out.push(m[1] ?? m[2] ?? m[3]);\<close>

  Every match consumes at least one character, so the loop ends.
\<close>

function tokenize :: "jsstring \<Rightarrow> jsstring list" where
  "tokenize s = (case re_exec s of None \<Rightarrow> [] | Some (tok, rest) \<Rightarrow> tok # tokenize rest)"
  by pat_completeness auto
termination
proof (relation "measure length")
  show "wf (measure length)" by simp
next
  fix s :: jsstring and m tok rest
  assume ex: "re_exec s = Some m" and m: "(tok, rest) = m"
  have quoted_shorter: "length r < length u" if "quoted q u = Some (t, r)" for q u t r
  proof (cases u)
    case Nil
    with that show ?thesis by simp
  next
    case (Cons c v)
    have "length (dropWhile (\<lambda>x. x \<noteq> q) v) \<le> length v" by (rule length_dropWhile_le)
    with that Cons show ?thesis by (auto split: if_splits list.splits)
  qed
  have bare_shorter: "length r < length u" if "bare u = Some (t, r)" for u t r
  proof -
    from that have ne: "takeWhile (\<lambda>x. \<not> is_space x) u \<noteq> []"
      and r: "r = dropWhile (\<lambda>x. \<not> is_space x) u"
      by (auto simp: bare_def split: list.splits)
    have "length (takeWhile (\<lambda>x. \<not> is_space x) u) + length r = length u"
      unfolding r by (metis length_append takeWhile_dropWhile_id)
    with ne show ?thesis by (cases "takeWhile (\<lambda>x. \<not> is_space x) u") auto
  qed
  have match_at_shorter: "length r < length u" if "match_at u = Some (t, r)" for u t r
    using that
    by (auto simp: match_at_def split: option.splits dest: quoted_shorter bare_shorter)
  have re_exec_shorter: "re_exec u = Some (t, r) \<Longrightarrow> length r < length u" for u t r
  proof (induction u)
    case Nil
    then show ?case by simp
  next
    case (Cons c v)
    then show ?case by (fastforce split: option.splits dest: match_at_shorter)
  qed
  from ex m have "length rest < length s" by (auto dest: re_exec_shorter)
  then show "(rest, s) \<in> measure length" by simp
qed

declare tokenize.simps [simp del]

text \<open>
  Where the loop stands after \<open>n\<close> turns: the text from \<^verbatim>\<open>lastIndex\<close> on, when the first
  \<open>n\<close> calls of \<^verbatim>\<open>re.exec\<close> have each found a token. The next token starts in that text.
\<close>

fun after_tokens :: "nat \<Rightarrow> jsstring \<Rightarrow> jsstring option" where
  "after_tokens 0 s = Some s"
| "after_tokens (Suc n) s =
     (case re_exec s of None \<Rightarrow> None | Some (tok, rest) \<Rightarrow> after_tokens n rest)"

section \<open>escapeHtml and shortId\<close>

text \<open>
  \<^verbatim>\<open>const map = {"&":"&amp;","<":"&lt;",">":"&gt;","\"":"&quot;","'":"&#39;"};\<close>
  \<^verbatim>\<open>return String(s).replace(/[&<>"']/g, ch => map[ch]);\<close>
\<close>

definition escape_map :: "jschar \<Rightarrow> jsstring" where
  "escape_map ch =
     (if ch = amp then js ''&amp;''
      else if ch = lt then js ''&lt;''
      else if ch = gt then js ''&gt;''
      else if ch = dquote then js ''&quot;''
      else if ch = squote then js ''&#39;''
      else [ch])"

definition escapeHtml :: "jsstring \<Rightarrow> jsstring" where
  "escapeHtml s = concat (map escape_map s)"

text \<open>
  \<^verbatim>\<open>return Math.random().toString(36).slice(2, 9);\<close>

  The argument \<open>r\<close> is the text \<^verbatim>\<open>Math.random().toString(36)\<close> of this call, for instance
  \<^verbatim>\<open>0.i\<close> when the number drawn is one half. \<^verbatim>\<open>slice(2, 9)\<close> keeps the characters at
  positions 2 to 8 that exist.
\<close>

definition shortId :: "jsstring \<Rightarrow> jsstring" where
  "shortId r = take 7 (drop 2 r)"

definition is_base36 :: "jschar \<Rightarrow> bool" where
  "is_base36 c \<longleftrightarrow> (0x30 \<le> c \<and> c \<le> 0x39) \<or> (0x61 \<le> c \<and> c \<le> 0x7A)"

section \<open>State\<close>

text \<open>
  An Entry is built in \<^verbatim>\<open>pushCmd\<close> as \<^verbatim>\<open>{ id: shortId(), date: ..., ...p }\<close>: the fields
  of the PendingItem \<open>p\<close> with an id and a date.
\<close>

record PendingItem =
  message :: jsstring
  lesson :: jsstring

record Entry = PendingItem +
  id' :: jsstring
  date :: jsstring

record State =
  pending :: "PendingItem list"
  entries :: "Entry list"
  mottos :: "jsstring list"

text \<open>
  The sources of chance and time: \<open>rnd i\<close> is the text \<^verbatim>\<open>Math.random().toString(36)\<close> of the
  \<open>i\<close>-th call of \<^verbatim>\<open>shortId\<close> in the operation at hand, and \<open>clock i\<close> the text
  \<^verbatim>\<open>new Date().toLocaleDateString()\<close> read next to it.
\<close>

definition seedEntries :: "(nat \<Rightarrow> jsstring) \<Rightarrow> (nat \<Rightarrow> jsstring) \<Rightarrow> Entry list" where
  "seedEntries rnd clock =
     [\<lparr>message = js ''Pushed broken config to prod'',
       lesson = js ''Add CI checks & use feature flags'',
       id' = shortId (rnd 0), date = clock 0\<rparr>,
      \<lparr>message = js ''Forgot to save before running benchmarks'',
       lesson = js ''Automate benchmarks in npm scripts'',
       id' = shortId (rnd 1), date = clock 1\<rparr>]"

definition seedMottos :: "jsstring list" where
  "seedMottos =
     [js ''Blameless, then curious.'', js ''Ship, learn, repeat.'', js ''If it hurts, document it.'']"

definition defaultState :: "(nat \<Rightarrow> jsstring) \<Rightarrow> (nat \<Rightarrow> jsstring) \<Rightarrow> State" where
  "defaultState rnd clock =
     \<lparr>pending = [], entries = seedEntries rnd clock, mottos = seedMottos\<rparr>"

section \<open>The stored record\<close>

text \<open>
  The values of JSON, and what \<^verbatim>\<open>JSON.stringify\<close> makes of a State: objects list their
  keys in the order the script creates them. A number is the rational value of the double.
\<close>

datatype jsval =
  JNull
| JBool bool
| JNum rat
| JStr jsstring
| JArr "jsval list"
| JObj "(jsstring \<times> jsval) list"

definition json_of_pending :: "PendingItem \<Rightarrow> jsval" where
  "json_of_pending p =
     JObj [(js ''message'', JStr (message p)), (js ''lesson'', JStr (lesson p))]"

definition json_of_entry :: "Entry \<Rightarrow> jsval" where
  "json_of_entry e =
     JObj [(js ''id'', JStr (id' e)), (js ''date'', JStr (date e)),
           (js ''message'', JStr (message e)), (js ''lesson'', JStr (lesson e))]"

definition json_of_state :: "State \<Rightarrow> jsval" where
  "json_of_state s =
     JObj [(js ''pending'', JArr (map json_of_pending (pending s))),
           (js ''entries'', JArr (map json_of_entry (entries s))),
           (js ''mottos'', JArr (map JStr (mottos s)))]"

text \<open>The values that \<^verbatim>\<open>||\<close> and \<^verbatim>\<open>!\<close> take for true.\<close>

fun truthy :: "jsval \<Rightarrow> bool" where
  "truthy JNull = False"
| "truthy (JBool b) = b"
| "truthy (JNum x) = (x \<noteq> 0)"
| "truthy (JStr s) = (s \<noteq> [])"
| "truthy (JArr xs) = True"
| "truthy (JObj kvs) = True"

text \<open>
  What browser storage holds under \<^verbatim>\<open>STORAGE_KEY\<close>, by what the platform's
  \<^verbatim>\<open>JSON.parse(localStorage.getItem(STORAGE_KEY))\<close> does with it: with no item \<^verbatim>\<open>getItem\<close>
  returns \<^verbatim>\<open>null\<close>, which \<^verbatim>\<open>JSON.parse\<close> reads as the text \<^verbatim>\<open>null\<close>; a text that is not
  JSON makes it throw; any other text encodes a value.
\<close>

datatype item = Missing | Unparseable | Encodes jsval

datatype error = SyntaxError | ReferenceError jsstring

definition JSON_parse_getItem :: "item \<Rightarrow> error + jsval" where
  "JSON_parse_getItem st =
     (case st of
        Missing \<Rightarrow> Inr JNull
      | Unparseable \<Rightarrow> Inl SyntaxError
      | Encodes v \<Rightarrow> Inr v)"

text \<open>
  \<^verbatim>\<open>try { return JSON.parse(localStorage.getItem(STORAGE_KEY)) || null; }\<close>
  \<^verbatim>\<open>catch { return null; }\<close>

  \<open>None\<close> is \<^verbatim>\<open>null\<close>.
\<close>

definition loadState :: "item \<Rightarrow> jsval option" where
  "loadState st =
     (case JSON_parse_getItem st of
        Inl e \<Rightarrow> None
      | Inr v \<Rightarrow> (if truthy v then Some v else None))"

text \<open>
  \<^verbatim>\<open>localStorage.setItem(STORAGE_KEY, JSON.stringify(s));\<close>

  The text written is the JSON text of \<open>s\<close>, which replaces the whole item.
\<close>

definition saveState :: "jsval \<Rightarrow> item" where
  "saveState s = Encodes s"

text \<open>
  \<^verbatim>\<open>let state = loadState() || defaultState;\<close>
  \<^verbatim>\<open>if (!loadState()) saveState(state);\<close>

  The result is the value of \<^verbatim>\<open>state\<close> and the storage after the two statements.
\<close>

definition startup :: "(nat \<Rightarrow> jsstring) \<Rightarrow> (nat \<Rightarrow> jsstring) \<Rightarrow> item \<Rightarrow> jsval \<times> item" where
  "startup rnd clock st =
     (let state = (case loadState st of
                     Some v \<Rightarrow> v
                   | None \<Rightarrow> json_of_state (defaultState rnd clock))
      in (state, if loadState st = None then saveState state else st))"

section \<open>The pages\<close>

text \<open>
  A list item is filled in one of two ways: \<^verbatim>\<open>li.innerHTML = ...\<close> hands the text to the
  markup parser, \<^verbatim>\<open>li.textContent = ...\<close> makes the text the content of the item as it
  is, with no parsing.
\<close>

datatype li = InnerHTML jsstring | TextContent jsstring

text \<open>
  What a page holds while its handlers run: the State in memory, browser storage, the lines
  of the terminal (text and class; \<^verbatim>\<open>initHome\<close> runs only where the screen exists), the
  items of the two home lists where the page has them, the rows of the full fail log and
  the items of the full motto list.
\<close>

record page =
  state :: State
  storage :: item
  screen :: "(jsstring \<times> jsstring) list"
  fail_list :: "li list option"
  mottosList :: "li list option"
  failsRoot :: "li list"
  mottosRoot :: "li list"

definition print :: "jsstring \<Rightarrow> jsstring \<Rightarrow> page \<Rightarrow> page" where
  "print text cls w = w\<lparr>screen := screen w @ [(text, cls)]\<rparr>"

definition spaces :: "nat \<Rightarrow> jsstring" where
  "spaces n = replicate n 0x20"

text \<open>
  The template of a home list item, with the four interpolated texts as arguments. The
  arrow is U+2192 and the bullet U+2022.
\<close>

definition home_item :: "jsstring \<Rightarrow> jsstring \<Rightarrow> jsstring \<Rightarrow> jsstring \<Rightarrow> jsstring" where
  \<open>home_item m l i d =
     [nl] @ spaces 10 @ js ''<span class="badge">fail</span>'' @
     [nl] @ spaces 10 @ js ''<div>'' @
     [nl] @ spaces 12 @ js ''<p class="lesson"><strong>'' @ m @ js ''</strong><br/>'' @
       [0x2192] @ js '' '' @ l @ js ''</p>'' @
     [nl] @ spaces 12 @ js ''<p class="meta">commit '' @ i @ js '' '' @ [0x2022] @ js '' '' @ d @
       js ''</p>'' @
     [nl] @ spaces 10 @ js ''</div>'' @
     [nl] @ spaces 8\<close>

text \<open>The template of a row of the full fail log; the delete button shows U+00D7.\<close>

definition fails_item :: "jsstring \<Rightarrow> jsstring \<Rightarrow> jsstring \<Rightarrow> jsstring \<Rightarrow> jsstring" where
  \<open>fails_item m l i d =
     [nl] @ spaces 8 @ js ''<span class="badge">fail</span>'' @
     [nl] @ spaces 8 @ js ''<div>'' @
     [nl] @ spaces 10 @ js ''<p class="lesson"><strong>'' @ m @ js ''</strong><br/>'' @
       [0x2192] @ js '' '' @ l @ js ''</p>'' @
     [nl] @ spaces 10 @ js ''<p class="meta">commit '' @ i @ js '' '' @ [0x2022] @ js '' '' @ d @
       js ''</p>'' @
     [nl] @ spaces 8 @ js ''</div>'' @
     [nl] @ spaces 8 @
       js ''<button class="btn-del" aria-label="delete entry" title="delete">'' @ [0xD7] @
       js ''</button>'' @
     [nl] @ spaces 6\<close>

text \<open>
  \<^verbatim>\<open>state.entries.slice().reverse().slice(0, 5).forEach(e => { ... li.innerHTML = ... })\<close>
  \<^verbatim>\<open>state.mottos.slice(-6).forEach(m => { ... li.textContent = m; ... })\<close>
\<close>

definition renderHomeLists :: "page \<Rightarrow> page" where
  "renderHomeLists w =
     w\<lparr>fail_list :=
         (case fail_list w of
            None \<Rightarrow> None
          | Some old \<Rightarrow>
              Some (map (\<lambda>e. InnerHTML (home_item (escapeHtml (message e))
                                            (escapeHtml (lesson e)) (id' e) (date e)))
                      (take 5 (rev (entries (state w)))))),
       mottosList :=
         (case mottosList w of
            None \<Rightarrow> None
          | Some old \<Rightarrow>
              Some (map TextContent
                      (drop (length (mottos (state w)) - 6) (mottos (state w)))))\<rparr>"

text \<open>\<^verbatim>\<open>state.entries.slice().reverse().forEach(e => { ... li.innerHTML = ... })\<close>\<close>

definition renderFailsPage :: "page \<Rightarrow> page" where
  "renderFailsPage w =
     w\<lparr>failsRoot :=
         map (\<lambda>e. InnerHTML (fails_item (escapeHtml (message e)) (escapeHtml (lesson e))
                               (id' e) (date e)))
           (rev (entries (state w)))\<rparr>"

text \<open>
  The list of \<^verbatim>\<open>renderMottosPage\<close>:
  \<^verbatim>\<open>state.mottos.forEach(m => { ... li.textContent = m; ul.appendChild(li); });\<close>
\<close>

definition renderMottosPage :: "page \<Rightarrow> page" where
  "renderMottosPage w = w\<lparr>mottosRoot := map TextContent (mottos (state w))\<rparr>"

section \<open>Command handlers\<close>

text \<open>
  The whole script is one function expression in strict mode, and \<^verbatim>\<open>commitCmd\<close> calls
  \<^verbatim>\<open>randomFailure\<close> and \<^verbatim>\<open>suggestLesson\<close>, which it resolves in the enclosing scopes when
  the call is evaluated. \<open>globals\<close> says what the two names are bound to there: \<open>None\<close>
  for a name that nothing declares, whose evaluation throws a ReferenceError; for
  \<^verbatim>\<open>randomFailure\<close> the text this call returns, for \<^verbatim>\<open>suggestLesson\<close> the function.
  \<open>script_globals\<close> is the scope as the script makes it: it declares neither name.
\<close>

record globals =
  randomFailure :: "jsstring option"
  suggestLesson :: "(jsstring \<Rightarrow> jsstring) option"

definition script_globals :: globals where
  "script_globals = \<lparr>randomFailure = None, suggestLesson = None\<rparr>"

text \<open>
  A handler returns, or throws out of the event listener that called it; in both cases
  the page is left as the handler made it up to then.
\<close>

datatype outcome = Returned page | Threw error page

fun after :: "outcome \<Rightarrow> page" where
  "after (Returned w) = w"
| "after (Threw e w) = w"

text \<open>
  \<^verbatim>\<open>const msg = message && message.trim() ? message.trim() : randomFailure();\<close>
  \<^verbatim>\<open>state.pending.push({ message: msg, lesson: suggestLesson(msg) });\<close>
  \<^verbatim>\<open>saveState(state);\<close>
  \<^verbatim>\<open>print(els, 'staged 1 file for commit', 'ok');\<close>
  \<^verbatim>\<open>state.pending.slice(-1).forEach((p, i) => { print(els, ..., 'info'); });\<close>

  \<open>message'\<close> is the parameter \<^verbatim>\<open>message\<close>. The argument of \<^verbatim>\<open>push\<close> is evaluated before the call, so a throw in it leaves
  \<^verbatim>\<open>pending\<close> as it was.
\<close>

definition staged_text :: "PendingItem \<Rightarrow> jsstring" where
  "staged_text p =
     js ''changes staged:'' @ [nl] @ js ''  fail:   '' @ message p @ [nl] @
     js ''  lesson: '' @ lesson p"

definition commitCmd :: "globals \<Rightarrow> jsstring \<Rightarrow> page \<Rightarrow> outcome" where
  "commitCmd g message' w =
     (case (if message' \<noteq> [] \<and> trim message' \<noteq> [] then Some (trim message')
            else randomFailure g) of
        None \<Rightarrow> Threw (ReferenceError (js ''randomFailure'')) w
      | Some msg \<Rightarrow>
          (case suggestLesson g of
             None \<Rightarrow> Threw (ReferenceError (js ''suggestLesson'')) w
           | Some f \<Rightarrow>
               (let s = (state w)\<lparr>pending :=
                          pending (state w) @ [\<lparr>message = msg, lesson = f msg\<rparr>]\<rparr>;
                    w1 = w\<lparr>state := s, storage := saveState (json_of_state s)\<rparr>;
                    w2 = print (js ''staged 1 file for commit'') (js ''ok'') w1
                in Returned
                     (foldl (\<lambda>v p. print (staged_text p) (js ''info'') v) w2
                        (drop (length (pending s) - 1) (pending s))))))"

text \<open>
  \<^verbatim>\<open>state.pending.forEach(p => {\<close>
  \<^verbatim>\<open>  state.entries.push({ id: shortId(), date: new Date().toLocaleDateString(), ...p });\<close>
  \<^verbatim>\<open>});\<close>

  \<open>push_each i ps es\<close> runs the loop over the pending items \<open>ps\<close> still to visit, the
  first of them being the \<open>i\<close>-th of the call, on the entries \<open>es\<close>.
\<close>

fun push_each ::
  "(nat \<Rightarrow> jsstring) \<Rightarrow> (nat \<Rightarrow> jsstring) \<Rightarrow> nat \<Rightarrow> PendingItem list \<Rightarrow> Entry list \<Rightarrow> Entry list"
where
  "push_each rnd clock i [] es = es"
| "push_each rnd clock i (p # ps) es =
     push_each rnd clock (Suc i) ps
       (es @ [\<lparr>message = message p, lesson = lesson p, id' = shortId (rnd i), date = clock i\<rparr>])"

text \<open>
  \<^verbatim>\<open>if (!state.pending.length) return print(els, 'nothing to push', 'warn');\<close>
  \<^verbatim>\<open>state.pending.forEach(...); state.pending = []; saveState(state);\<close>
  \<^verbatim>\<open>print(els, 'pushed to origin ... failures celebrated', 'ok');\<close>
  \<^verbatim>\<open>party(els); renderHomeLists(els);\<close>

  The message holds the code point U+1F389, two code units. \<^verbatim>\<open>party\<close> only fills and
  empties the confetti element, which the page record leaves out.
\<close>

definition pushCmd :: "(nat \<Rightarrow> jsstring) \<Rightarrow> (nat \<Rightarrow> jsstring) \<Rightarrow> page \<Rightarrow> page" where
  "pushCmd rnd clock w =
     (if pending (state w) = [] then print (js ''nothing to push'') (js ''warn'') w
      else
        (let s = (state w)\<lparr>entries :=
                   push_each rnd clock 0 (pending (state w)) (entries (state w)),
                   pending := []\<rparr>;
             w1 = w\<lparr>state := s, storage := saveState (json_of_state s)\<rparr>;
             w2 = print (js ''pushed to origin '' @ [0xD83C, 0xDF89] @ js '' failures celebrated'')
                    (js ''ok'') w1
         in renderHomeLists w2))"

text \<open>
  \<^verbatim>\<open>const t = text && text.trim();\<close>
  \<^verbatim>\<open>if (!t) return print(els, 'usage: motto "text"', 'warn');\<close>
  \<^verbatim>\<open>state.mottos.push(t); saveState(state); renderHomeLists(els);\<close>
  \<^verbatim>\<open>print(els, 'motto added', 'ok');\<close>
\<close>

definition mottoCmd :: "jsstring \<Rightarrow> page \<Rightarrow> page" where
  \<open>mottoCmd text w =
     (let t = (if text = [] then text else trim text)
      in if t = [] then print (js ''usage: motto "text"'') (js ''warn'') w
         else
           (let s = (state w)\<lparr>mottos := mottos (state w) @ [t]\<rparr>;
                w1 = w\<lparr>state := s, storage := saveState (json_of_state s)\<rparr>;
                w2 = renderHomeLists w1
            in print (js ''motto added'') (js ''ok'') w2))\<close>

section \<open>The delete button of the full fail log\<close>

text \<open>
  \<^verbatim>\<open>const idx = state.entries.findIndex(x => x.id === e.id);\<close>
  \<^verbatim>\<open>if (idx !== -1) { state.entries.splice(idx, 1); saveState(state); renderFailsPage(els); }\<close>

  \<open>e\<close> is the Entry whose row holds the button. \<open>findIndex\<close> returns \<open>None\<close> for -1.
\<close>

fun findIndex :: "('a \<Rightarrow> bool) \<Rightarrow> 'a list \<Rightarrow> nat option" where
  "findIndex P [] = None"
| "findIndex P (x # xs) =
     (if P x then Some 0 else (case findIndex P xs of None \<Rightarrow> None | Some i \<Rightarrow> Some (Suc i)))"

definition splice1 :: "nat \<Rightarrow> 'a list \<Rightarrow> 'a list" where
  "splice1 idx xs = take idx xs @ drop (Suc idx) xs"

definition btn_del_click :: "Entry \<Rightarrow> page \<Rightarrow> page" where
  "btn_del_click e w =
     (case findIndex (\<lambda>x. id' x = id' e) (entries (state w)) of
        None \<Rightarrow> w
      | Some idx \<Rightarrow>
          (let s = (state w)\<lparr>entries := splice1 idx (entries (state w))\<rparr>
           in renderFailsPage (w\<lparr>state := s, storage := saveState (json_of_state s)\<rparr>)))"

section \<open>Reading escaped text back\<close>

text \<open>
  What a markup parser shows for text that holds the five character references of
  \<open>escape_map\<close>: each reference stands for its character, every other character for
  itself. It is the reading against which the escaping is checked.
\<close>

fun unescapeHtml :: "jsstring \<Rightarrow> jsstring" where
  "unescapeHtml [] = []"
| "unescapeHtml (c # t) =
     (if c = amp \<and> take 4 t = js ''amp;'' then amp # unescapeHtml (drop 4 t)
      else if c = amp \<and> take 3 t = js ''lt;'' then lt # unescapeHtml (drop 3 t)
      else if c = amp \<and> take 3 t = js ''gt;'' then gt # unescapeHtml (drop 3 t)
      else if c = amp \<and> take 5 t = js ''quot;'' then dquote # unescapeHtml (drop 5 t)
      else if c = amp \<and> take 4 t = js ''#39;'' then squote # unescapeHtml (drop 4 t)
      else c # unescapeHtml t)"

section \<open>Example inputs\<close>

text \<open>
  A page whose State \<open>s\<close> has just been saved, with an empty terminal and empty lists; and
  the two sources of chance and time used in the examples: every draw the same text.
\<close>

definition page_of :: "State \<Rightarrow> page" where
  "page_of s =
     \<lparr>state = s, storage = saveState (json_of_state s), screen = [],
      fail_list = Some [], mottosList = Some [], failsRoot = [], mottosRoot = []\<rparr>"

definition always :: "jsstring \<Rightarrow> nat \<Rightarrow> jsstring" where
  "always r i = r"

section \<open>Properties of tokenize\<close>

lemma until_quote_drop:
  "q \<notin> set body \<Longrightarrow> dropWhile (\<lambda>x. x \<noteq> q) (body @ q # rest) = q # rest"
  by (induction body) auto

lemma until_quote_take:
  "q \<notin> set body \<Longrightarrow> takeWhile (\<lambda>x. x \<noteq> q) (body @ q # rest) = body"
  by (induction body) auto

lemma quoted_wrapped:
  "q \<notin> set body \<Longrightarrow> quoted q (q # body @ q # rest) = Some (body, rest)"
  by (simp add: until_quote_drop until_quote_take)

lemma quoted_unclosed: "q \<notin> set t \<Longrightarrow> quoted q (c # t) = None"
proof -
  assume "q \<notin> set t"
  then have d: "dropWhile (\<lambda>x. x \<noteq> q) t = []" by (induction t) auto
  show ?thesis unfolding quoted.simps d by simp
qed

lemma quotes_differ: "dquote \<noteq> squote"
  by (simp add: dquote_def squote_def)

lemma space_not_quote: "is_space c \<Longrightarrow> c \<noteq> dquote \<and> c \<noteq> squote"
  by (auto simp: is_space_def dquote_def squote_def)

lemma bare_space: "is_space c \<Longrightarrow> bare (c # s) = None"
  by (simp add: bare_def)

lemma bare_run:
  assumes "w \<noteq> []" "\<forall>x\<in>set w. \<not> is_space x" "rest = [] \<or> is_space (hd rest)"
  shows "bare (w @ rest) = Some (w, rest)"
proof -
  have t: "takeWhile (\<lambda>x. \<not> is_space x) (w @ rest) = w"
    using assms(2,3) by (cases rest) (auto simp: takeWhile_append2)
  have d: "dropWhile (\<lambda>x. \<not> is_space x) (w @ rest) = rest"
    using assms(2,3) by (cases rest) (auto simp: dropWhile_append2)
  from assms(1) t d show ?thesis by (cases w) (auto simp: bare_def)
qed

lemma re_exec_here: "match_at s = Some m \<Longrightarrow> re_exec s = Some m"
  by (cases s) (simp_all add: match_at_def bare_def)

lemma tokenize_here: "match_at s = Some (tok, rest) \<Longrightarrow> tokenize s = tok # tokenize rest"
  by (simp add: tokenize.simps [of s] re_exec_here)

lemma tokenize_Nil: "tokenize [] = []"
  by (simp add: tokenize.simps)

lemma tokenize_space: "is_space c \<Longrightarrow> tokenize (c # s) = tokenize s"
  using space_not_quote [of c]
  by (simp add: tokenize.simps [of "c # s"] tokenize.simps [of s] match_at_def bare_space)

lemma tokenize_quoted:
  assumes "q = dquote \<or> q = squote" "q \<notin> set body"
  shows "tokenize (q # body @ q # rest) = body # tokenize rest"
proof -
  have w: "quoted q (q # body @ q # rest) = Some (body, rest)"
    using assms(2) by (rule quoted_wrapped)
  have "match_at (q # body @ q # rest) = Some (body, rest)"
  proof (cases "q = dquote")
    case True
    with w show ?thesis by (simp add: match_at_def del: quoted.simps)
  next
    case False
    then have "quoted dquote (q # body @ q # rest) = None" by simp
    moreover from False assms(1) have "q = squote" by simp
    ultimately show ?thesis using w by (simp add: match_at_def del: quoted.simps)
  qed
  then show ?thesis by (rule tokenize_here)
qed

lemma tokenize_bare:
  assumes "w \<noteq> []" "\<forall>x\<in>set w. \<not> is_space x" "rest = [] \<or> is_space (hd rest)"
    and "hd w = dquote \<longrightarrow> dquote \<notin> set (tl w @ rest)"
    and "hd w = squote \<longrightarrow> squote \<notin> set (tl w @ rest)"
  shows "tokenize (w @ rest) = w # tokenize rest"
proof -
  from assms(1) obtain c t where w: "w = c # t" by (cases w) auto
  have "quoted dquote (w @ rest) = None"
  proof (cases "c = dquote")
    case True
    with assms(4) w have "dquote \<notin> set (t @ rest)" by simp
    then show ?thesis unfolding w append_Cons by (rule quoted_unclosed)
  next
    case False
    then show ?thesis by (simp add: w)
  qed
  moreover have "quoted squote (w @ rest) = None"
  proof (cases "c = squote")
    case True
    with assms(5) w have "squote \<notin> set (t @ rest)" by simp
    then show ?thesis unfolding w append_Cons by (rule quoted_unclosed)
  next
    case False
    then show ?thesis by (simp add: w)
  qed
  ultimately have "match_at (w @ rest) = Some (w, rest)"
    using bare_run [OF assms(1-3)] by (simp add: match_at_def)
  then show ?thesis by (rule tokenize_here)
qed

lemma tokenize_empty_iff: "tokenize s = [] \<longleftrightarrow> (\<forall>c\<in>set s. is_space c)"
proof (induction s)
  case Nil
  show ?case by (simp add: tokenize_Nil)
next
  case (Cons c t)
  show ?case
  proof (cases "is_space c")
    case True
    with Cons show ?thesis by (simp add: tokenize_space)
  next
    case False
    then have "bare (c # t) \<noteq> None" by (simp add: bare_def)
    then have "match_at (c # t) \<noteq> None" by (auto simp: match_at_def split: option.splits)
    then have "tokenize (c # t) \<noteq> []"
      by (auto simp: tokenize.simps [of "c # t"] split: option.splits)
    with False show ?thesis by auto
  qed
qed

lemmas tokenize_eval =
  js_def tokenize.simps match_at_def bare_def is_space_def dquote_def squote_def



lemma tokenize_spaces: "\<forall>c\<in>set sp. is_space c \<Longrightarrow> tokenize (sp @ s) = tokenize s"
  by (induction sp) (simp_all add: tokenize_space)

lemma after_tokens_tokenize:
  "after_tokens n line = Some s \<Longrightarrow>
     tokenize line = take n (tokenize line) @ tokenize s \<and> n \<le> length (tokenize line)"
proof (induction n arbitrary: line)
  case 0
  then show ?case by simp
next
  case (Suc n)
  from Suc.prems obtain tok rest
    where m: "re_exec line = Some (tok, rest)" and a: "after_tokens n rest = Some s"
    by (auto split: option.splits)
  from m have t: "tokenize line = tok # tokenize rest"
    by (simp add: tokenize.simps [of line])
  from Suc.IH [OF a] show ?case
    unfolding t by simp
qed

text \<open>
  C10, as the code has it. \<open>tokenize\<close> gives no token exactly for the lines that hold
  nothing but white space, the empty line among them. A quote at the start of a token,
  that is the first character that is not white space where the scan stands, at the head
  of the line or after the tokens before it, with no closing quote of its kind after it,
  is an ordinary character of a run of characters that are not white space, and that run
  is the next token. Quoted runs of the two kinds in one line are each read by their own
  rule, whatever quotes of the other kind they hold.
\<close>

theorem tokenize_empty_unmatched:
  "(tokenize s = [] \<longleftrightarrow> (\<forall>c\<in>set s. is_space c)) \<and>
   ((q = dquote \<or> q = squote) \<and> q \<notin> set (run @ rest) \<and> (\<forall>x\<in>set run. \<not> is_space x) \<and>
    (rest = [] \<or> is_space (hd rest)) \<longrightarrow>
      tokenize (q # run @ rest) = (q # run) # tokenize rest) \<and>
   (after_tokens n line = Some (sp @ q # run @ rest) \<and> (\<forall>c\<in>set sp. is_space c) \<and>
    (q = dquote \<or> q = squote) \<and> q \<notin> set (run @ rest) \<and> (\<forall>x\<in>set run. \<not> is_space x) \<and>
    (rest = [] \<or> is_space (hd rest)) \<longrightarrow>
      tokenize line = take n (tokenize line) @ (q # run) # tokenize rest \<and>
      length (take n (tokenize line)) = n) \<and>
   (dquote \<notin> set b1 \<and> squote \<notin> set b2 \<longrightarrow>
      tokenize (dquote # b1 @ dquote # squote # b2 @ squote # rest') =
        b1 # b2 # tokenize rest' \<and>
      tokenize (squote # b2 @ squote # dquote # b1 @ dquote # rest') =
        b2 # b1 # tokenize rest')"
proof -
  have unclosed: "tokenize (q # run @ rest) = (q # run) # tokenize rest"
    if a: "(q = dquote \<or> q = squote) \<and> q \<notin> set (run @ rest) \<and>
      (\<forall>x\<in>set run. \<not> is_space x) \<and> (rest = [] \<or> is_space (hd rest))"
  proof -
    from a have "\<not> is_space q" using space_not_quote [of q] by auto
    with a have "tokenize ((q # run) @ rest) = (q # run) # tokenize rest"
      by (intro tokenize_bare) auto
    then show ?thesis by simp
  qed
  show ?thesis
  proof (intro conjI impI)
    show "tokenize s = [] \<longleftrightarrow> (\<forall>c\<in>set s. is_space c)" by (rule tokenize_empty_iff)
  next
    assume "(q = dquote \<or> q = squote) \<and> q \<notin> set (run @ rest) \<and>
      (\<forall>x\<in>set run. \<not> is_space x) \<and> (rest = [] \<or> is_space (hd rest))"
    then show "tokenize (q # run @ rest) = (q # run) # tokenize rest" by (rule unclosed)
  next
    assume a: "after_tokens n line = Some (sp @ q # run @ rest) \<and> (\<forall>c\<in>set sp. is_space c) \<and>
      (q = dquote \<or> q = squote) \<and> q \<notin> set (run @ rest) \<and> (\<forall>x\<in>set run. \<not> is_space x) \<and>
      (rest = [] \<or> is_space (hd rest))"
    then have r: "after_tokens n line = Some (sp @ q # run @ rest)"
      and sp: "\<forall>c\<in>set sp. is_space c"
      and u: "(q = dquote \<or> q = squote) \<and> q \<notin> set (run @ rest) \<and>
        (\<forall>x\<in>set run. \<not> is_space x) \<and> (rest = [] \<or> is_space (hd rest))"
      by simp_all
    have "tokenize (sp @ q # run @ rest) = (q # run) # tokenize rest"
      unfolding tokenize_spaces [OF sp] using u by (rule unclosed)
    with after_tokens_tokenize [OF r]
    show "tokenize line = take n (tokenize line) @ (q # run) # tokenize rest"
      and "length (take n (tokenize line)) = n"
      by simp_all
  next
    assume a: "dquote \<notin> set b1 \<and> squote \<notin> set b2"
    have "tokenize (dquote # b1 @ dquote # squote # b2 @ squote # rest') =
        b1 # tokenize (squote # b2 @ squote # rest')"
      using a by (simp add: tokenize_quoted)
    then show "tokenize (dquote # b1 @ dquote # squote # b2 @ squote # rest') =
        b1 # b2 # tokenize rest'"
      using a by (simp add: tokenize_quoted)
  next
    assume a: "dquote \<notin> set b1 \<and> squote \<notin> set b2"
    have "tokenize (squote # b2 @ squote # dquote # b1 @ dquote # rest') =
        b2 # tokenize (dquote # b1 @ dquote # rest')"
      using a by (simp add: tokenize_quoted)
    then show "tokenize (squote # b2 @ squote # dquote # b1 @ dquote # rest') =
        b2 # b1 # tokenize rest'"
      using a by (simp add: tokenize_quoted)
  qed
qed

theorem tokenize_empty_unmatched_witness:
  \<open>(tokenize (js ''  '') = []) \<and>
   tokenize (js ''"abc def'') = js ''"abc'' # tokenize (js '' def'') \<and>
   after_tokens 1 (js ''a "b c'') = Some (js '' "b c'') \<and>
   tokenize (js ''a "b c'') = [js ''a'', js ''"b'', js ''c''] \<and>
   tokenize (js ''"it's"'' @ squote # js ''a "b" c'' @ [squote]) =
     [js ''it's'', js ''a "b" c''] \<and>
   tokenize (squote # js ''a "b" c'' @ squote # js ''"it's"'') =
     [js ''a "b" c'', js ''it's'']\<close>
  using
    tokenize_empty_unmatched [where s = "js ''  ''" and q = dquote and run = "js ''abc''"
      and rest = "js '' def''" and n = 0 and line = "js ''\"abc def''" and sp = "[]"
      and ?b1.0 = "js ''it's''" and ?b2.0 = \<open>js ''a "b" c''\<close> and rest' = "[]"]
    tokenize_empty_unmatched [where s = "[]" and q = dquote and run = "js ''b''"
      and rest = "js '' c''" and n = 1 and line = \<open>js ''a "b c''\<close> and sp = "js '' ''"
      and ?b1.0 = "[]" and ?b2.0 = "[]" and rest' = "[]"]
  by (simp add: tokenize_eval tokenize_Nil)

theorem tokenize_unmatched_counterexample:
  \<open>tokenize (js ''"abc'') = [js ''"abc''] \<and> tokenize (js ''"abc'') \<noteq> []\<close>
  by (simp add: tokenize_eval)

section \<open>Properties of the command handlers\<close>

lemma trim_Nil: "trim [] = []"
  by (simp add: trim_def)

lemma state_print: "state (print text cls w) = state w"
  by (simp add: print_def)

lemma storage_print: "storage (print text cls w) = storage w"
  by (simp add: print_def)

lemma screen_print: "screen (print text cls w) = screen w @ [(text, cls)]"
  by (simp add: print_def)

lemma state_renderHomeLists: "state (renderHomeLists w) = state w"
  by (simp add: renderHomeLists_def)

lemma storage_renderHomeLists: "storage (renderHomeLists w) = storage w"
  by (simp add: renderHomeLists_def)

lemma screen_renderHomeLists: "screen (renderHomeLists w) = screen w"
  by (simp add: renderHomeLists_def)

lemmas page_simps =
  state_print storage_print screen_print
  state_renderHomeLists storage_renderHomeLists screen_renderHomeLists

lemma json_of_state_explicit:
  "json_of_state s =
     JObj [(js ''pending'',
            JArr (map (\<lambda>p. JObj [(js ''message'', JStr (message p)),
                                  (js ''lesson'', JStr (lesson p))])
                   (pending s))),
           (js ''entries'',
            JArr (map (\<lambda>x. JObj [(js ''id'', JStr (id' x)), (js ''date'', JStr (date x)),
                                  (js ''message'', JStr (message x)),
                                  (js ''lesson'', JStr (lesson x))])
                   (entries s))),
           (js ''mottos'', JArr (map JStr (mottos s)))]"
proof -
  have p: "json_of_pending =
      (\<lambda>p. JObj [(js ''message'', JStr (message p)), (js ''lesson'', JStr (lesson p))])"
    by (rule ext) (simp add: json_of_pending_def)
  have e: "json_of_entry =
      (\<lambda>x. JObj [(js ''id'', JStr (id' x)), (js ''date'', JStr (date x)),
                 (js ''message'', JStr (message x)), (js ''lesson'', JStr (lesson x))])"
    by (rule ext) (simp add: json_of_entry_def)
  show ?thesis
    unfolding json_of_state_def p e by (rule refl)
qed

lemma loadState_object: "loadState (Encodes (JObj kvs)) = Some (JObj kvs)"
  by (simp add: loadState_def JSON_parse_getItem_def)

lemmas page_eval =
  page_of_def always_def print_def renderHomeLists_def saveState_def json_of_state_def
  json_of_pending_def json_of_entry_def

text \<open>
  C4. When nothing is pending, \<^verbatim>\<open>push\<close> prints the one warning line and changes nothing
  else: the State, with its entries and its pending items, browser storage and the lists
  of the page stay as they were.
\<close>

theorem pushCmd_nothing_to_push:
  "pending (state w) = [] \<longrightarrow>
     pushCmd rnd clock w = w\<lparr>screen := screen w @ [(js ''nothing to push'', js ''warn'')]\<rparr> \<and>
     state (pushCmd rnd clock w) = state w \<and>
     entries (state (pushCmd rnd clock w)) = entries (state w) \<and>
     pending (state (pushCmd rnd clock w)) = pending (state w) \<and>
     storage (pushCmd rnd clock w) = storage w \<and>
     screen (pushCmd rnd clock w) = screen w @ [(js ''nothing to push'', js ''warn'')]"
  by (simp add: pushCmd_def print_def)

theorem pushCmd_nothing_to_push_witness:
  "entries (state (pushCmd (always (js ''0.4fzyo82mvyr'')) (always (js ''11/2/2026''))
      (page_of \<lparr>pending = [], entries = [], mottos = [js ''Ship it'']\<rparr>))) = [] \<and>
   storage (pushCmd (always (js ''0.4fzyo82mvyr'')) (always (js ''11/2/2026''))
      (page_of \<lparr>pending = [], entries = [], mottos = [js ''Ship it'']\<rparr>)) =
     saveState (json_of_state \<lparr>pending = [], entries = [], mottos = [js ''Ship it'']\<rparr>) \<and>
   screen (pushCmd (always (js ''0.4fzyo82mvyr'')) (always (js ''11/2/2026''))
      (page_of \<lparr>pending = [], entries = [], mottos = [js ''Ship it'']\<rparr>)) =
     [(js ''nothing to push'', js ''warn'')]"
  using pushCmd_nothing_to_push [of
      "page_of \<lparr>pending = [], entries = [], mottos = [js ''Ship it'']\<rparr>"
      "always (js ''0.4fzyo82mvyr'')" "always (js ''11/2/2026'')"]
  by (simp add: page_of_def)

text \<open>
  C8. When the text of \<^verbatim>\<open>motto\<close> is empty or only white space, the handler prints the
  usage warning and changes neither the State nor browser storage. Otherwise it appends
  the trimmed text, and nothing else, to the mottos, leaves the pending items and the
  entries alone, prints the confirmation and saves the State: the record in browser
  storage is then the object of the pending items, the entries and the mottos with the new
  one at their end, and loading it gives that object back.
\<close>

theorem mottoCmd_effect:
  \<open>(trim text = [] \<longrightarrow>
      mottoCmd text w = print (js ''usage: motto "text"'') (js ''warn'') w \<and>
      state (mottoCmd text w) = state w \<and>
      storage (mottoCmd text w) = storage w \<and>
      screen (mottoCmd text w) = screen w @ [(js ''usage: motto "text"'', js ''warn'')]) \<and>
   (trim text \<noteq> [] \<longrightarrow>
      mottos (state (mottoCmd text w)) = mottos (state w) @ [trim text] \<and>
      pending (state (mottoCmd text w)) = pending (state w) \<and>
      entries (state (mottoCmd text w)) = entries (state w) \<and>
      storage (mottoCmd text w) = saveState (json_of_state (state (mottoCmd text w))) \<and>
      storage (mottoCmd text w) =
        Encodes (JObj [(js ''pending'',
                   JArr (map (\<lambda>p. JObj [(js ''message'', JStr (message p)),
                                         (js ''lesson'', JStr (lesson p))])
                          (pending (state w)))),
                  (js ''entries'',
                   JArr (map (\<lambda>x. JObj [(js ''id'', JStr (id' x)), (js ''date'', JStr (date x)),
                                         (js ''message'', JStr (message x)),
                                         (js ''lesson'', JStr (lesson x))])
                          (entries (state w)))),
                  (js ''mottos'', JArr (map JStr (mottos (state w) @ [trim text])))]) \<and>
      loadState (storage (mottoCmd text w)) =
        Some (JObj [(js ''pending'',
                   JArr (map (\<lambda>p. JObj [(js ''message'', JStr (message p)),
                                         (js ''lesson'', JStr (lesson p))])
                          (pending (state w)))),
                  (js ''entries'',
                   JArr (map (\<lambda>x. JObj [(js ''id'', JStr (id' x)), (js ''date'', JStr (date x)),
                                         (js ''message'', JStr (message x)),
                                         (js ''lesson'', JStr (lesson x))])
                          (entries (state w)))),
                  (js ''mottos'', JArr (map JStr (mottos (state w) @ [trim text])))]) \<and>
      screen (mottoCmd text w) = screen w @ [(js ''motto added'', js ''ok'')])\<close>
proof -
  have t: "(if text = [] then text else trim text) = trim text"
    by (simp add: trim_Nil)
  have usage: "mottoCmd text w = print (js ''usage: motto \"text\"'') (js ''warn'') w"
    if "trim text = []"
    using that unfolding mottoCmd_def t by simp
  have st: "state (mottoCmd text w) = (state w)\<lparr>mottos := mottos (state w) @ [trim text]\<rparr>"
    and sto: "storage (mottoCmd text w) =
      saveState (json_of_state ((state w)\<lparr>mottos := mottos (state w) @ [trim text]\<rparr>))"
    and scr: "screen (mottoCmd text w) = screen w @ [(js ''motto added'', js ''ok'')]"
    if "trim text \<noteq> []"
    using that unfolding mottoCmd_def t by (simp_all add: Let_def page_simps)
  have rec: "storage (mottoCmd text w) =
      Encodes (JObj [(js ''pending'',
                   JArr (map (\<lambda>p. JObj [(js ''message'', JStr (message p)),
                                         (js ''lesson'', JStr (lesson p))])
                          (pending (state w)))),
                  (js ''entries'',
                   JArr (map (\<lambda>x. JObj [(js ''id'', JStr (id' x)), (js ''date'', JStr (date x)),
                                         (js ''message'', JStr (message x)),
                                         (js ''lesson'', JStr (lesson x))])
                          (entries (state w)))),
                  (js ''mottos'', JArr (map JStr (mottos (state w) @ [trim text])))])"
    if "trim text \<noteq> []"
    unfolding sto [OF that] saveState_def json_of_state_explicit by simp
  show ?thesis
  proof (intro conjI impI)
    assume e: "trim text = []"
    show "mottoCmd text w = print (js ''usage: motto \"text\"'') (js ''warn'') w"
      by (rule usage [OF e])
    show "state (mottoCmd text w) = state w"
      unfolding usage [OF e] by (rule state_print)
    show "storage (mottoCmd text w) = storage w"
      unfolding usage [OF e] by (rule storage_print)
    show "screen (mottoCmd text w) = screen w @ [(js ''usage: motto \"text\"'', js ''warn'')]"
      unfolding usage [OF e] by (rule screen_print)
  next
    assume n: "trim text \<noteq> []"
    show "mottos (state (mottoCmd text w)) = mottos (state w) @ [trim text]"
      "pending (state (mottoCmd text w)) = pending (state w)"
      "entries (state (mottoCmd text w)) = entries (state w)"
      by (simp_all add: st [OF n])
    show "storage (mottoCmd text w) = saveState (json_of_state (state (mottoCmd text w)))"
      unfolding st [OF n] by (rule sto [OF n])
    show "storage (mottoCmd text w) =
      Encodes (JObj [(js ''pending'',
                   JArr (map (\<lambda>p. JObj [(js ''message'', JStr (message p)),
                                         (js ''lesson'', JStr (lesson p))])
                          (pending (state w)))),
                  (js ''entries'',
                   JArr (map (\<lambda>x. JObj [(js ''id'', JStr (id' x)), (js ''date'', JStr (date x)),
                                         (js ''message'', JStr (message x)),
                                         (js ''lesson'', JStr (lesson x))])
                          (entries (state w)))),
                  (js ''mottos'', JArr (map JStr (mottos (state w) @ [trim text])))])"
      by (rule rec [OF n])
    show "loadState (storage (mottoCmd text w)) =
      Some (JObj [(js ''pending'',
                   JArr (map (\<lambda>p. JObj [(js ''message'', JStr (message p)),
                                         (js ''lesson'', JStr (lesson p))])
                          (pending (state w)))),
                  (js ''entries'',
                   JArr (map (\<lambda>x. JObj [(js ''id'', JStr (id' x)), (js ''date'', JStr (date x)),
                                         (js ''message'', JStr (message x)),
                                         (js ''lesson'', JStr (lesson x))])
                          (entries (state w)))),
                  (js ''mottos'', JArr (map JStr (mottos (state w) @ [trim text])))])"
      unfolding rec [OF n] by (rule loadState_object)
    show "screen (mottoCmd text w) = screen w @ [(js ''motto added'', js ''ok'')]"
      by (rule scr [OF n])
  qed
qed

theorem mottoCmd_effect_witness:
  \<open>mottos (state (mottoCmd (js ''Ship it'')
      (page_of \<lparr>pending = [], entries = [], mottos = [js ''Ship, learn, repeat.'']\<rparr>))) =
     [js ''Ship, learn, repeat.'', js ''Ship it''] \<and>
   storage (mottoCmd (js ''Ship it'')
      (page_of \<lparr>pending = [], entries = [], mottos = [js ''Ship, learn, repeat.'']\<rparr>)) =
     Encodes (JObj [(js ''pending'', JArr []), (js ''entries'', JArr []),
                    (js ''mottos'', JArr [JStr (js ''Ship, learn, repeat.''),
                                          JStr (js ''Ship it'')])]) \<and>
   loadState (storage (mottoCmd (js ''Ship it'')
      (page_of \<lparr>pending = [], entries = [], mottos = [js ''Ship, learn, repeat.'']\<rparr>))) =
     Some (JObj [(js ''pending'', JArr []), (js ''entries'', JArr []),
                 (js ''mottos'', JArr [JStr (js ''Ship, learn, repeat.''),
                                       JStr (js ''Ship it'')])]) \<and>
   mottos (state (mottoCmd (js ''   '')
      (page_of \<lparr>pending = [], entries = [], mottos = [js ''Ship, learn, repeat.'']\<rparr>))) =
     [js ''Ship, learn, repeat.''] \<and>
   storage (mottoCmd (js ''   '')
      (page_of \<lparr>pending = [], entries = [], mottos = [js ''Ship, learn, repeat.'']\<rparr>)) =
     Encodes (JObj [(js ''pending'', JArr []), (js ''entries'', JArr []),
                    (js ''mottos'', JArr [JStr (js ''Ship, learn, repeat.'')])]) \<and>
   screen (mottoCmd []
      (page_of \<lparr>pending = [], entries = [], mottos = [js ''Ship, learn, repeat.'']\<rparr>)) =
     [(js ''usage: motto "text"'', js ''warn'')]\<close>
  using
    mottoCmd_effect [of "js ''Ship it''"
      "page_of \<lparr>pending = [], entries = [], mottos = [js ''Ship, learn, repeat.'']\<rparr>"]
    mottoCmd_effect [of "js ''   ''"
      "page_of \<lparr>pending = [], entries = [], mottos = [js ''Ship, learn, repeat.'']\<rparr>"]
    mottoCmd_effect [of "[]"
      "page_of \<lparr>pending = [], entries = [], mottos = [js ''Ship, learn, repeat.'']\<rparr>"]
  by (simp add: page_of_def print_def trim_def js_def is_space_def saveState_def
      json_of_state_def loadState_object)

lemma commitCmd_with_helpers:
  assumes msg: "msg = (if trim message' \<noteq> [] then trim message' else m0)"
  shows "\<exists>w'. commitCmd \<lparr>randomFailure = Some m0, suggestLesson = Some f\<rparr> message' w =
           Returned w' \<and>
         pending (state w') = pending (state w) @ [\<lparr>message = msg, lesson = f msg\<rparr>] \<and>
         entries (state w') = entries (state w) \<and>
         mottos (state w') = mottos (state w) \<and>
         storage w' = saveState (json_of_state (state w'))"
proof -
  have c: "(if message' \<noteq> [] \<and> trim message' \<noteq> [] then Some (trim message')
            else randomFailure \<lparr>randomFailure = Some m0, suggestLesson = Some f\<rparr>) = Some msg"
    using msg by (auto simp: trim_Nil)
  show ?thesis
    unfolding commitCmd_def c by (simp add: Let_def page_simps)
qed

text \<open>
  C1, on the script as it is. \<^verbatim>\<open>commitCmd\<close> calls \<^verbatim>\<open>suggestLesson\<close>, and for an empty
  text \<^verbatim>\<open>randomFailure\<close> before it, and the script declares neither: for every text the
  handler throws a ReferenceError before it touches the pending items, and the page is
  left as it was, with nothing appended and nothing saved. (\<open>commitCmd_with_helpers\<close> is
  the handler in a scope that binds both names.)
\<close>

theorem commitCmd_throws:
  "commitCmd script_globals message' w =
     Threw (ReferenceError (if message' \<noteq> [] \<and> trim message' \<noteq> [] then js ''suggestLesson''
                            else js ''randomFailure'')) w \<and>
   after (commitCmd script_globals message' w) = w"
  by (simp add: commitCmd_def script_globals_def)

lemma push_each_append:
  "push_each rnd clock i ps es =
     es @ map (\<lambda>(k, p). \<lparr>message = message p, lesson = lesson p,
                           id' = shortId (rnd k), date = clock k\<rparr>) (enumerate i ps)"
  by (induction ps arbitrary: i es) simp_all

lemma push_each_ids:
  "map id' (push_each rnd clock i ps es) =
     map id' es @ map (\<lambda>k. shortId (rnd k)) [i..<i + length ps]"
proof -
  have "map (id' \<circ> (\<lambda>(k, p). \<lparr>message = message p, lesson = lesson p,
                                  id' = shortId (rnd k), date = clock k\<rparr>)) (enumerate i ps) =
        map ((\<lambda>k. shortId (rnd k)) \<circ> fst) (enumerate i ps)"
    by (rule map_cong) auto
  then show ?thesis
    by (simp add: push_each_append map_map [symmetric] del: map_map)
qed

lemma commit_push_with_helpers:
  assumes "pending (state w) = []" "entries (state w) = []"
  shows "entries (state (pushCmd rnd clock
           (after (commitCmd \<lparr>randomFailure = Some m0, suggestLesson = Some f\<rparr> (js ''X'') w)))) =
           [\<lparr>message = js ''X'', lesson = f (js ''X''),
             id' = shortId (rnd 0), date = clock 0\<rparr>] \<and>
         pending (state (pushCmd rnd clock
           (after (commitCmd \<lparr>randomFailure = Some m0, suggestLesson = Some f\<rparr> (js ''X'') w)))) = []"
proof -
  have t: "trim (js ''X'') = js ''X''"
    by (simp add: trim_def js_def is_space_def)
  have ne: "js ''X'' \<noteq> []"
    by (simp add: js_def)
  obtain w' where w':
    "commitCmd \<lparr>randomFailure = Some m0, suggestLesson = Some f\<rparr> (js ''X'') w = Returned w'"
    "pending (state w') = pending (state w) @ [\<lparr>message = js ''X'', lesson = f (js ''X'')\<rparr>]"
    "entries (state w') = entries (state w)"
    using commitCmd_with_helpers [of "js ''X''" "js ''X''" m0 f w]
    by (auto simp: t ne)
  show ?thesis
    using assms w' by (simp add: pushCmd_def Let_def page_simps)
qed

text \<open>
  C2, on the script as it is. From a State with no pending items and no entries,
  \<^verbatim>\<open>commit "X"\<close> throws its ReferenceError and stages nothing, so
  the \<^verbatim>\<open>push\<close> that follows finds nothing pending: it prints its warning and the entries
  are still empty. (\<open>commit_push_with_helpers\<close> is the round trip in a scope that binds
  the two names.)
\<close>

theorem commit_push_no_entry:
  "pending (state w) = [] \<and> entries (state w) = [] \<longrightarrow>
     commitCmd script_globals (js ''X'') w = Threw (ReferenceError (js ''suggestLesson'')) w \<and>
     entries (state (pushCmd rnd clock (after (commitCmd script_globals (js ''X'') w)))) = [] \<and>
     screen (pushCmd rnd clock (after (commitCmd script_globals (js ''X'') w))) =
       screen w @ [(js ''nothing to push'', js ''warn'')]"
proof -
  have t: "trim (js ''X'') = js ''X''"
    by (simp add: trim_def js_def is_space_def)
  have c: "commitCmd script_globals (js ''X'') w = Threw (ReferenceError (js ''suggestLesson'')) w"
    unfolding commitCmd_def t by (simp add: script_globals_def js_def)
  show ?thesis
    unfolding c by (simp add: pushCmd_def page_simps)
qed

theorem commit_push_no_entry_witness:
  "entries (state (pushCmd (always (js ''0.4fzyo82mvyr'')) (always (js ''11/2/2026''))
     (after (commitCmd script_globals (js ''X'')
        (page_of \<lparr>pending = [], entries = [], mottos = []\<rparr>))))) = [] \<and>
   screen (pushCmd (always (js ''0.4fzyo82mvyr'')) (always (js ''11/2/2026''))
     (after (commitCmd script_globals (js ''X'')
        (page_of \<lparr>pending = [], entries = [], mottos = []\<rparr>)))) =
     [(js ''nothing to push'', js ''warn'')]"
  using commit_push_no_entry [of "page_of \<lparr>pending = [], entries = [], mottos = []\<rparr>"
      "always (js ''0.4fzyo82mvyr'')" "always (js ''11/2/2026'')"]
  by (auto simp: page_of_def)

section \<open>Properties of the ids\<close>

lemma state_pushCmd:
  "pending (state w) \<noteq> [] \<Longrightarrow>
     state (pushCmd rnd clock w) =
       (state w)\<lparr>entries := push_each rnd clock 0 (pending (state w)) (entries (state w)),
                 pending := []\<rparr>"
  by (simp add: pushCmd_def Let_def page_simps)

lemma pushCmd_ids:
  "map id' (entries (state (pushCmd rnd clock w))) =
     map id' (entries (state w)) @ map (\<lambda>k. shortId (rnd k)) [0..<length (pending (state w))]"
proof (cases "pending (state w) = []")
  case True
  then show ?thesis by (simp add: pushCmd_def page_simps)
next
  case False
  then show ?thesis by (simp add: state_pushCmd push_each_ids)
qed

text \<open>
  C6, as the code has it. An id is the characters at positions 2 to 8 of the base-36 text
  of the number drawn: at most 7 characters, 7 of them when that text has 9 or more, and
  base-36 digits when the text after its first two characters is made of them.
  \<^verbatim>\<open>push\<close> gives the new entries the ids of its draws, in order, after the ids of the
  entries there were, and checks none of them against another: the ids of the entries
  are pairwise different after a push exactly when the old ids and the ids drawn are.
\<close>

theorem shortId_pushCmd_ids:
  "length (shortId r) \<le> 7 \<and>
   (9 \<le> length r \<longrightarrow> length (shortId r) = 7) \<and>
   ((\<forall>c\<in>set (drop 2 r). is_base36 c) \<longrightarrow> (\<forall>c\<in>set (shortId r). is_base36 c)) \<and>
   map id' (entries (state (pushCmd rnd clock w))) =
     map id' (entries (state w)) @ map (\<lambda>k. shortId (rnd k)) [0..<length (pending (state w))] \<and>
   (distinct (map id' (entries (state (pushCmd rnd clock w)))) \<longleftrightarrow>
    distinct (map id' (entries (state w)) @
              map (\<lambda>k. shortId (rnd k)) [0..<length (pending (state w))]))"
proof (intro conjI impI)
  show "length (shortId r) \<le> 7" by (simp add: shortId_def)
  show "length (shortId r) = 7" if "9 \<le> length r"
    using that by (simp add: shortId_def)
  show "\<forall>c\<in>set (shortId r). is_base36 c" if "\<forall>c\<in>set (drop 2 r). is_base36 c"
    using that by (auto simp: shortId_def dest: in_set_takeD)
  show "map id' (entries (state (pushCmd rnd clock w))) =
     map id' (entries (state w)) @ map (\<lambda>k. shortId (rnd k)) [0..<length (pending (state w))]"
    by (rule pushCmd_ids)
  show "distinct (map id' (entries (state (pushCmd rnd clock w)))) \<longleftrightarrow>
    distinct (map id' (entries (state w)) @
              map (\<lambda>k. shortId (rnd k)) [0..<length (pending (state w))])"
    by (simp only: pushCmd_ids)
qed

theorem shortId_pushCmd_ids_witness:
  "length (shortId (js ''0.4fzyo82mvyr'')) = 7 \<and>
   shortId (js ''0.4fzyo82mvyr'') = js ''4fzyo82'' \<and>
   map id' (entries (state (pushCmd (\<lambda>k. if k = 0 then js ''0.4fzyo82mvyr'' else js ''0.9x1c3k7qzp'')
      (always (js ''11/2/2026''))
      (page_of \<lparr>pending = [\<lparr>message = js ''a'', lesson = js ''b''\<rparr>,
                            \<lparr>message = js ''c'', lesson = js ''d''\<rparr>],
                 entries = [], mottos = []\<rparr>)))) = [js ''4fzyo82'', js ''9x1c3k7''] \<and>
   distinct (map id' (entries (state (pushCmd
      (\<lambda>k. if k = 0 then js ''0.4fzyo82mvyr'' else js ''0.9x1c3k7qzp'')
      (always (js ''11/2/2026''))
      (page_of \<lparr>pending = [\<lparr>message = js ''a'', lesson = js ''b''\<rparr>,
                            \<lparr>message = js ''c'', lesson = js ''d''\<rparr>],
                 entries = [], mottos = []\<rparr>)))))"
  using shortId_pushCmd_ids [of "js ''0.4fzyo82mvyr''"
      "\<lambda>k. if k = 0 then js ''0.4fzyo82mvyr'' else js ''0.9x1c3k7qzp''"
      "always (js ''11/2/2026'')"
      "page_of \<lparr>pending = [\<lparr>message = js ''a'', lesson = js ''b''\<rparr>,
                            \<lparr>message = js ''c'', lesson = js ''d''\<rparr>],
                 entries = [], mottos = []\<rparr>"]
  by (simp add: page_of_def shortId_def js_def is_base36_def upt_conv_Cons)

theorem shortId_counterexample:
  "map id' (entries (state (pushCmd (always (js ''0.i'')) (always (js ''11/2/2026''))
      (page_of \<lparr>pending = [\<lparr>message = js ''a'', lesson = js ''b''\<rparr>,
                            \<lparr>message = js ''c'', lesson = js ''d''\<rparr>],
                 entries = [], mottos = []\<rparr>)))) = [js ''i'', js ''i''] \<and>
   \<not> distinct (map id' (entries (state (pushCmd (always (js ''0.i'')) (always (js ''11/2/2026''))
      (page_of \<lparr>pending = [\<lparr>message = js ''a'', lesson = js ''b''\<rparr>,
                            \<lparr>message = js ''c'', lesson = js ''d''\<rparr>],
                 entries = [], mottos = []\<rparr>))))) \<and>
   length (shortId (js ''0.i'')) = 1"
  by (simp add: pushCmd_def page_eval Let_def shortId_def js_def)

section \<open>Properties of the delete button\<close>

lemma findIndex_None: "findIndex P xs = None \<longleftrightarrow> (\<forall>x\<in>set xs. \<not> P x)"
  by (induction xs) (auto split: option.splits)

lemma findIndex_Some:
  "findIndex P xs = Some i \<Longrightarrow>
     \<exists>ys y zs. xs = ys @ y # zs \<and> P y \<and> (\<forall>x\<in>set ys. \<not> P x) \<and> i = length ys"
proof (induction xs arbitrary: i)
  case Nil
  then show ?case by simp
next
  case (Cons x xs)
  show ?case
  proof (cases "P x")
    case True
    with Cons.prems have "i = 0" by simp
    with True have "x # xs = [] @ x # xs \<and> P x \<and> (\<forall>a\<in>set []. \<not> P a) \<and> i = length []"
      by simp
    then show ?thesis by blast
  next
    case False
    with Cons.prems obtain j where j: "findIndex P xs = Some j" "i = Suc j"
      by (auto split: option.splits)
    from Cons.IH [OF j(1)] obtain ys y zs
      where "xs = ys @ y # zs" "P y" "\<forall>a\<in>set ys. \<not> P a" "j = length ys"
      by blast
    with False j(2)
    have "x # xs = (x # ys) @ y # zs \<and> P y \<and> (\<forall>a\<in>set (x # ys). \<not> P a) \<and> i = length (x # ys)"
      by simp
    then show ?thesis by blast
  qed
qed

lemma splice1_middle: "splice1 (length ys) (ys @ y # zs) = ys @ zs"
  by (simp add: splice1_def)

lemma state_renderFailsPage: "state (renderFailsPage w) = state w"
  by (simp add: renderFailsPage_def)

lemma storage_renderFailsPage: "storage (renderFailsPage w) = storage w"
  by (simp add: renderFailsPage_def)

text \<open>
  C7. For an Entry \<open>e\<close> of the entries, the delete button of its row takes out of the
  entries the first Entry that has the id of \<open>e\<close>, which is \<open>e\<close> itself when the ids are
  pairwise different: the entries before it and after it stay, unaltered and in their
  order, so there is exactly one Entry less. The pending items and the mottos are left
  alone, and the State is saved: the record in browser storage is then the object of the
  pending items, the entries that stay and the mottos, and loading it gives that object
  back. When the ids are pairwise different, no Entry that stays, in the State or in the
  stored record, has the id of \<open>e\<close>.
\<close>

theorem btn_del_click_removes:
  assumes "e \<in> set (entries (state w))"
  shows "\<exists>before y behind.
           entries (state w) = before @ y # behind \<and>
           id' y = id' e \<and>
           (\<forall>x\<in>set before. id' x \<noteq> id' e) \<and>
           (distinct (map id' (entries (state w))) \<longrightarrow> y = e) \<and>
           (distinct (map id' (entries (state w))) \<longrightarrow>
              (\<forall>x\<in>set (before @ behind). id' x \<noteq> id' e)) \<and>
           entries (state (btn_del_click e w)) = before @ behind \<and>
           length (entries (state (btn_del_click e w))) + 1 = length (entries (state w)) \<and>
           pending (state (btn_del_click e w)) = pending (state w) \<and>
           mottos (state (btn_del_click e w)) = mottos (state w) \<and>
           storage (btn_del_click e w) = saveState (json_of_state (state (btn_del_click e w))) \<and>
           storage (btn_del_click e w) =
             Encodes (JObj [(js ''pending'',
                   JArr (map (\<lambda>p. JObj [(js ''message'', JStr (message p)),
                                         (js ''lesson'', JStr (lesson p))])
                          (pending (state w)))),
                  (js ''entries'',
                   JArr (map (\<lambda>x. JObj [(js ''id'', JStr (id' x)), (js ''date'', JStr (date x)),
                                         (js ''message'', JStr (message x)),
                                         (js ''lesson'', JStr (lesson x))])
                          (before @ behind))),
                  (js ''mottos'', JArr (map JStr (mottos (state w))))]) \<and>
           loadState (storage (btn_del_click e w)) =
             Some (JObj [(js ''pending'',
                   JArr (map (\<lambda>p. JObj [(js ''message'', JStr (message p)),
                                         (js ''lesson'', JStr (lesson p))])
                          (pending (state w)))),
                  (js ''entries'',
                   JArr (map (\<lambda>x. JObj [(js ''id'', JStr (id' x)), (js ''date'', JStr (date x)),
                                         (js ''message'', JStr (message x)),
                                         (js ''lesson'', JStr (lesson x))])
                          (before @ behind))),
                  (js ''mottos'', JArr (map JStr (mottos (state w))))])"
proof -
  from assms have "findIndex (\<lambda>x. id' x = id' e) (entries (state w)) \<noteq> None"
    by (auto simp: findIndex_None)
  then obtain idx where idx: "findIndex (\<lambda>x. id' x = id' e) (entries (state w)) = Some idx"
    by auto
  from findIndex_Some [OF idx] obtain before y behind
    where split: "entries (state w) = before @ y # behind"
      and y: "id' y = id' e"
      and first: "\<forall>x\<in>set before. id' x \<noteq> id' e"
      and len: "idx = length before"
    by blast
  have same: "y = e" if d: "distinct (map id' (entries (state w)))"
  proof -
    from d have "inj_on id' (set (entries (state w)))" by (simp add: distinct_map)
    moreover from split have "y \<in> set (entries (state w))" by simp
    ultimately show ?thesis using assms y by (auto dest: inj_onD)
  qed
  have gone: "\<forall>x\<in>set (before @ behind). id' x \<noteq> id' e"
    if d: "distinct (map id' (entries (state w)))"
  proof -
    from d have "distinct (map id' before @ id' y # map id' behind)"
      unfolding split by simp
    then have "id' y \<notin> set (map id' before) \<and> id' y \<notin> set (map id' behind)"
      by auto
    then show ?thesis unfolding y by (auto simp: image_iff)
  qed
  have sp: "splice1 idx (entries (state w)) = before @ behind"
    unfolding split len by (rule splice1_middle)
  have click: "btn_del_click e w =
      renderFailsPage
        (w\<lparr>state := (state w)\<lparr>entries := before @ behind\<rparr>,
           storage := saveState (json_of_state ((state w)\<lparr>entries := before @ behind\<rparr>))\<rparr>)"
    by (simp add: btn_del_click_def idx sp Let_def)
  have st: "state (btn_del_click e w) = (state w)\<lparr>entries := before @ behind\<rparr>"
    unfolding click by (simp add: state_renderFailsPage)
  have sto: "storage (btn_del_click e w) = saveState (json_of_state (state (btn_del_click e w)))"
    unfolding st unfolding click by (simp add: storage_renderFailsPage)
  have rec: "storage (btn_del_click e w) =
      Encodes (JObj [(js ''pending'',
                   JArr (map (\<lambda>p. JObj [(js ''message'', JStr (message p)),
                                         (js ''lesson'', JStr (lesson p))])
                          (pending (state w)))),
                  (js ''entries'',
                   JArr (map (\<lambda>x. JObj [(js ''id'', JStr (id' x)), (js ''date'', JStr (date x)),
                                         (js ''message'', JStr (message x)),
                                         (js ''lesson'', JStr (lesson x))])
                          (before @ behind))),
                  (js ''mottos'', JArr (map JStr (mottos (state w))))])"
    unfolding sto st saveState_def json_of_state_explicit by simp
  have load: "loadState (storage (btn_del_click e w)) =
      Some (JObj [(js ''pending'',
                   JArr (map (\<lambda>p. JObj [(js ''message'', JStr (message p)),
                                         (js ''lesson'', JStr (lesson p))])
                          (pending (state w)))),
                  (js ''entries'',
                   JArr (map (\<lambda>x. JObj [(js ''id'', JStr (id' x)), (js ''date'', JStr (date x)),
                                         (js ''message'', JStr (message x)),
                                         (js ''lesson'', JStr (lesson x))])
                          (before @ behind))),
                  (js ''mottos'', JArr (map JStr (mottos (state w))))])"
    unfolding rec by (rule loadState_object)
  have unique: "distinct (map id' (entries (state w))) \<longrightarrow> y = e"
    using same by blast
  have absent: "distinct (map id' (entries (state w))) \<longrightarrow>
      (\<forall>x\<in>set (before @ behind). id' x \<noteq> id' e)"
    using gone by blast
  have rest: "entries (state (btn_del_click e w)) = before @ behind"
    by (simp add: st)
  have less: "length (entries (state (btn_del_click e w))) + 1 = length (entries (state w))"
    unfolding rest split by simp
  have pend: "pending (state (btn_del_click e w)) = pending (state w)"
    by (simp add: st)
  have mott: "mottos (state (btn_del_click e w)) = mottos (state w)"
    by (simp add: st)
  show ?thesis
    apply (rule exI [of _ before])
    apply (rule exI [of _ y])
    apply (rule exI [of _ behind])
    apply (intro conjI)
               apply (rule split)
              apply (rule y)
             apply (rule first)
            apply (rule unique)
           apply (rule absent)
          apply (rule rest)
         apply (rule less)
        apply (rule pend)
       apply (rule mott)
      apply (rule sto)
     apply (rule rec)
    apply (rule load)
    done
qed

theorem btn_del_click_removes_witness:
  "entries (state (btn_del_click
      \<lparr>message = js ''c'', lesson = js ''d'', id' = js ''9x1c3k7'', date = js ''11/2/2026''\<rparr>
      (page_of \<lparr>pending = [],
                 entries =
                   [\<lparr>message = js ''a'', lesson = js ''b'', id' = js ''4fzyo82'',
                     date = js ''11/1/2026''\<rparr>,
                    \<lparr>message = js ''c'', lesson = js ''d'', id' = js ''9x1c3k7'',
                     date = js ''11/2/2026''\<rparr>,
                    \<lparr>message = js ''e'', lesson = js ''f'', id' = js ''k2m8q0z'',
                     date = js ''11/2/2026''\<rparr>],
                 mottos = []\<rparr>))) =
     [\<lparr>message = js ''a'', lesson = js ''b'', id' = js ''4fzyo82'', date = js ''11/1/2026''\<rparr>,
      \<lparr>message = js ''e'', lesson = js ''f'', id' = js ''k2m8q0z'', date = js ''11/2/2026''\<rparr>] \<and>
   storage (btn_del_click
      \<lparr>message = js ''c'', lesson = js ''d'', id' = js ''9x1c3k7'', date = js ''11/2/2026''\<rparr>
      (page_of \<lparr>pending = [],
                 entries =
                   [\<lparr>message = js ''a'', lesson = js ''b'', id' = js ''4fzyo82'',
                     date = js ''11/1/2026''\<rparr>,
                    \<lparr>message = js ''c'', lesson = js ''d'', id' = js ''9x1c3k7'',
                     date = js ''11/2/2026''\<rparr>,
                    \<lparr>message = js ''e'', lesson = js ''f'', id' = js ''k2m8q0z'',
                     date = js ''11/2/2026''\<rparr>],
                 mottos = []\<rparr>)) =
     Encodes (JObj
       [(js ''pending'', JArr []),
        (js ''entries'',
         JArr [JObj [(js ''id'', JStr (js ''4fzyo82'')), (js ''date'', JStr (js ''11/1/2026'')),
                     (js ''message'', JStr (js ''a'')), (js ''lesson'', JStr (js ''b''))],
               JObj [(js ''id'', JStr (js ''k2m8q0z'')), (js ''date'', JStr (js ''11/2/2026'')),
                     (js ''message'', JStr (js ''e'')), (js ''lesson'', JStr (js ''f''))]]),
        (js ''mottos'', JArr [])]) \<and>
   loadState (storage (btn_del_click
      \<lparr>message = js ''c'', lesson = js ''d'', id' = js ''9x1c3k7'', date = js ''11/2/2026''\<rparr>
      (page_of \<lparr>pending = [],
                 entries =
                   [\<lparr>message = js ''a'', lesson = js ''b'', id' = js ''4fzyo82'',
                     date = js ''11/1/2026''\<rparr>,
                    \<lparr>message = js ''c'', lesson = js ''d'', id' = js ''9x1c3k7'',
                     date = js ''11/2/2026''\<rparr>,
                    \<lparr>message = js ''e'', lesson = js ''f'', id' = js ''k2m8q0z'',
                     date = js ''11/2/2026''\<rparr>],
                 mottos = []\<rparr>))) =
     Some (JObj
       [(js ''pending'', JArr []),
        (js ''entries'',
         JArr [JObj [(js ''id'', JStr (js ''4fzyo82'')), (js ''date'', JStr (js ''11/1/2026'')),
                     (js ''message'', JStr (js ''a'')), (js ''lesson'', JStr (js ''b''))],
               JObj [(js ''id'', JStr (js ''k2m8q0z'')), (js ''date'', JStr (js ''11/2/2026'')),
                     (js ''message'', JStr (js ''e'')), (js ''lesson'', JStr (js ''f''))]]),
        (js ''mottos'', JArr [])])"
proof -
  let ?e1 = "\<lparr>message = js ''a'', lesson = js ''b'', id' = js ''4fzyo82'',
               date = js ''11/1/2026''\<rparr>"
  let ?e2 = "\<lparr>message = js ''c'', lesson = js ''d'', id' = js ''9x1c3k7'',
               date = js ''11/2/2026''\<rparr>"
  let ?e3 = "\<lparr>message = js ''e'', lesson = js ''f'', id' = js ''k2m8q0z'',
               date = js ''11/2/2026''\<rparr>"
  let ?w = "page_of \<lparr>pending = [], entries = [?e1, ?e2, ?e3], mottos = []\<rparr>"
  have mem: "?e2 \<in> set (entries (state ?w))"
    by (simp add: page_of_def)
  show ?thesis
    using btn_del_click_removes [OF mem]
    by (simp add: btn_del_click_def page_of_def splice1_def renderFailsPage_def Let_def
        saveState_def json_of_state_def json_of_entry_def json_of_pending_def
        loadState_def JSON_parse_getItem_def js_def)
qed

section \<open>Properties of escapeHtml\<close>

lemma escapeHtml_Nil: "escapeHtml [] = []"
  by (simp add: escapeHtml_def)

lemma escapeHtml_Cons: "escapeHtml (c # s) = escape_map c @ escapeHtml s"
  by (simp add: escapeHtml_def)

lemmas char_defs = amp_def lt_def gt_def dquote_def squote_def

lemma escape_map_plain: "\<forall>x\<in>set (escape_map c). x \<noteq> lt \<and> x \<noteq> gt \<and> x \<noteq> dquote \<and> x \<noteq> squote"
  by (simp add: escape_map_def char_defs js_def)

lemma escapeHtml_plain:
  "\<forall>x\<in>set (escapeHtml s). x \<noteq> lt \<and> x \<noteq> gt \<and> x \<noteq> dquote \<and> x \<noteq> squote"
  using escape_map_plain by (induction s) (auto simp: escapeHtml_Nil escapeHtml_Cons)

lemma unescape_escape_map: "unescapeHtml (escape_map c @ t) = c # unescapeHtml t"
  by (simp add: escape_map_def char_defs js_def)

lemma unescapeHtml_escapeHtml: "unescapeHtml (escapeHtml s) = s"
  by (induction s) (simp_all add: escapeHtml_Nil escapeHtml_Cons unescape_escape_map)

lemma spaces_eval:
  "spaces 6 = [0x20, 0x20, 0x20, 0x20, 0x20, 0x20]"
  "spaces 8 = [0x20, 0x20, 0x20, 0x20, 0x20, 0x20, 0x20, 0x20]"
  "spaces 10 = [0x20, 0x20, 0x20, 0x20, 0x20, 0x20, 0x20, 0x20, 0x20, 0x20]"
  "spaces 12 = [0x20, 0x20, 0x20, 0x20, 0x20, 0x20, 0x20, 0x20, 0x20, 0x20, 0x20, 0x20]"
  by (simp_all add: spaces_def eval_nat_numeral)

lemma escapeHtml_no_markup:
  "filter (\<lambda>x. x = lt \<or> x = gt \<or> x = dquote \<or> x = squote) (escapeHtml s) = []"
  using escapeHtml_plain [of s] by (auto simp: filter_empty_conv)

text \<open>
  C9. \<open>escapeHtml\<close> replaces each ampersand, angle bracket and quote by its character
  reference and keeps the other characters, so the escaped text holds no angle bracket and
  no quote, and reading the references back gives the text itself: \<^verbatim>\<open><script>\<close> becomes
  \<^verbatim>\<open>&lt;script&gt;\<close>. The markup of a row of the full fail log and of an item of the home
  list is the fixed text of its template with the escaped message after \<^verbatim>\<open><strong>\<close> and
  the escaped lesson after the arrow, and the message and the lesson enter it in no other
  way: the angle brackets and quotes of the markup are those it has with an empty message
  and an empty lesson. The mottos are never made markup: each is the text content of its
  item, in the home list and in the full motto list.
\<close>

theorem escapeHtml_literal:
  \<open>escape_map amp = js ''&amp;'' \<and> escape_map lt = js ''&lt;'' \<and> escape_map gt = js ''&gt;'' \<and>
   escape_map dquote = js ''&quot;'' \<and> escape_map squote = js ''&#39;'' \<and>
   escapeHtml s = concat (map escape_map s) \<and>
   (\<forall>x\<in>set (escapeHtml s). x \<noteq> lt \<and> x \<noteq> gt \<and> x \<noteq> dquote \<and> x \<noteq> squote) \<and>
   unescapeHtml (escapeHtml s) = s \<and>
   failsRoot (renderFailsPage w) =
     map (\<lambda>e. InnerHTML
         ([nl] @ spaces 8 @ js ''<span class="badge">fail</span>'' @
          [nl] @ spaces 8 @ js ''<div>'' @
          [nl] @ spaces 10 @ js ''<p class="lesson"><strong>'' @ escapeHtml (message e) @
            js ''</strong><br/>'' @ [0x2192] @ js '' '' @ escapeHtml (lesson e) @ js ''</p>'' @
          [nl] @ spaces 10 @ js ''<p class="meta">commit '' @ id' e @ js '' '' @ [0x2022] @
            js '' '' @ date e @ js ''</p>'' @
          [nl] @ spaces 8 @ js ''</div>'' @
          [nl] @ spaces 8 @
            js ''<button class="btn-del" aria-label="delete entry" title="delete">'' @ [0xD7] @
            js ''</button>'' @
          [nl] @ spaces 6))
       (rev (entries (state w))) \<and>
   (fail_list w \<noteq> None \<longrightarrow>
      fail_list (renderHomeLists w) =
        Some (map (\<lambda>e. InnerHTML
         ([nl] @ spaces 10 @ js ''<span class="badge">fail</span>'' @
          [nl] @ spaces 10 @ js ''<div>'' @
          [nl] @ spaces 12 @ js ''<p class="lesson"><strong>'' @ escapeHtml (message e) @
            js ''</strong><br/>'' @ [0x2192] @ js '' '' @ escapeHtml (lesson e) @ js ''</p>'' @
          [nl] @ spaces 12 @ js ''<p class="meta">commit '' @ id' e @ js '' '' @ [0x2022] @
            js '' '' @ date e @ js ''</p>'' @
          [nl] @ spaces 10 @ js ''</div>'' @
          [nl] @ spaces 8))
                (take 5 (rev (entries (state w)))))) \<and>
   filter (\<lambda>x. x = lt \<or> x = gt \<or> x = dquote \<or> x = squote)
       (fails_item (escapeHtml m) (escapeHtml l) i d) =
     filter (\<lambda>x. x = lt \<or> x = gt \<or> x = dquote \<or> x = squote) (fails_item [] [] i d) \<and>
   filter (\<lambda>x. x = lt \<or> x = gt \<or> x = dquote \<or> x = squote)
       (home_item (escapeHtml m) (escapeHtml l) i d) =
     filter (\<lambda>x. x = lt \<or> x = gt \<or> x = dquote \<or> x = squote) (home_item [] [] i d) \<and>
   (mottosList w \<noteq> None \<longrightarrow>
      mottosList (renderHomeLists w) =
        Some (map TextContent (drop (length (mottos (state w)) - 6) (mottos (state w))))) \<and>
   mottosRoot (renderMottosPage w) = map TextContent (mottos (state w)) \<and>
   escapeHtml (js ''<script>'') = js ''&lt;script&gt;''\<close>
proof (intro conjI)
  show "escape_map amp = js ''&amp;''" "escape_map lt = js ''&lt;''"
    "escape_map gt = js ''&gt;''" \<open>escape_map dquote = js ''&quot;''\<close>
    "escape_map squote = js ''&#39;''"
    by (simp_all add: escape_map_def char_defs)
  show "escapeHtml s = concat (map escape_map s)"
    by (simp add: escapeHtml_def)
  show "\<forall>x\<in>set (escapeHtml s). x \<noteq> lt \<and> x \<noteq> gt \<and> x \<noteq> dquote \<and> x \<noteq> squote"
    by (rule escapeHtml_plain)
  show "unescapeHtml (escapeHtml s) = s"
    by (rule unescapeHtml_escapeHtml)
  show \<open>failsRoot (renderFailsPage w) =
     map (\<lambda>e. InnerHTML
         ([nl] @ spaces 8 @ js ''<span class="badge">fail</span>'' @
          [nl] @ spaces 8 @ js ''<div>'' @
          [nl] @ spaces 10 @ js ''<p class="lesson"><strong>'' @ escapeHtml (message e) @
            js ''</strong><br/>'' @ [0x2192] @ js '' '' @ escapeHtml (lesson e) @ js ''</p>'' @
          [nl] @ spaces 10 @ js ''<p class="meta">commit '' @ id' e @ js '' '' @ [0x2022] @
            js '' '' @ date e @ js ''</p>'' @
          [nl] @ spaces 8 @ js ''</div>'' @
          [nl] @ spaces 8 @
            js ''<button class="btn-del" aria-label="delete entry" title="delete">'' @ [0xD7] @
            js ''</button>'' @
          [nl] @ spaces 6))
       (rev (entries (state w)))\<close>
    by (simp add: renderFailsPage_def fails_item_def)
  show \<open>fail_list w \<noteq> None \<longrightarrow>
      fail_list (renderHomeLists w) =
        Some (map (\<lambda>e. InnerHTML
         ([nl] @ spaces 10 @ js ''<span class="badge">fail</span>'' @
          [nl] @ spaces 10 @ js ''<div>'' @
          [nl] @ spaces 12 @ js ''<p class="lesson"><strong>'' @ escapeHtml (message e) @
            js ''</strong><br/>'' @ [0x2192] @ js '' '' @ escapeHtml (lesson e) @ js ''</p>'' @
          [nl] @ spaces 12 @ js ''<p class="meta">commit '' @ id' e @ js '' '' @ [0x2022] @
            js '' '' @ date e @ js ''</p>'' @
          [nl] @ spaces 10 @ js ''</div>'' @
          [nl] @ spaces 8))
                (take 5 (rev (entries (state w)))))\<close>
    by (auto simp: renderHomeLists_def home_item_def)
  show "filter (\<lambda>x. x = lt \<or> x = gt \<or> x = dquote \<or> x = squote)
       (fails_item (escapeHtml m) (escapeHtml l) i d) =
     filter (\<lambda>x. x = lt \<or> x = gt \<or> x = dquote \<or> x = squote) (fails_item [] [] i d)"
    by (simp add: fails_item_def escapeHtml_no_markup)
  show "filter (\<lambda>x. x = lt \<or> x = gt \<or> x = dquote \<or> x = squote)
       (home_item (escapeHtml m) (escapeHtml l) i d) =
     filter (\<lambda>x. x = lt \<or> x = gt \<or> x = dquote \<or> x = squote) (home_item [] [] i d)"
    by (simp add: home_item_def escapeHtml_no_markup)
  show "mottosList w \<noteq> None \<longrightarrow>
      mottosList (renderHomeLists w) =
        Some (map TextContent (drop (length (mottos (state w)) - 6) (mottos (state w))))"
    by (auto simp: renderHomeLists_def)
  show "mottosRoot (renderMottosPage w) = map TextContent (mottos (state w))"
    by (simp add: renderMottosPage_def)
  show "escapeHtml (js ''<script>'') = js ''&lt;script&gt;''"
    by (simp add: escapeHtml_def escape_map_def char_defs js_def)
qed

theorem escapeHtml_literal_witness:
  \<open>escapeHtml (js ''<b onclick="x('y')">&'') =
     js ''&lt;b onclick=&quot;x(&#39;y&#39;)&quot;&gt;&amp;'' \<and>
   unescapeHtml (js ''&lt;b onclick=&quot;x(&#39;y&#39;)&quot;&gt;&amp;'') =
     js ''<b onclick="x('y')">&'' \<and>
   failsRoot (renderFailsPage (page_of
      \<lparr>pending = [],
       entries = [\<lparr>message = js ''<script>'', lesson = js ''a & b'', id' = js ''4fzyo82'',
                   date = js ''11/2/2026''\<rparr>],
       mottos = [js ''<b>Ship</b> it'']\<rparr>)) =
     [InnerHTML
       ([nl] @ js ''        <span class="badge">fail</span>'' @
        [nl] @ js ''        <div>'' @
        [nl] @ js ''          <p class="lesson"><strong>&lt;script&gt;</strong><br/>'' @ [0x2192] @
          js '' a &amp; b</p>'' @
        [nl] @ js ''          <p class="meta">commit 4fzyo82 '' @ [0x2022] @ js '' 11/2/2026</p>'' @
        [nl] @ js ''        </div>'' @
        [nl] @ js ''        <button class="btn-del" aria-label="delete entry" title="delete">'' @
          [0xD7] @ js ''</button>'' @
        [nl] @ js ''      '' )] \<and>
   fail_list (renderHomeLists (page_of
      \<lparr>pending = [],
       entries = [\<lparr>message = js ''<script>'', lesson = js ''a & b'', id' = js ''4fzyo82'',
                   date = js ''11/2/2026''\<rparr>],
       mottos = [js ''<b>Ship</b> it'']\<rparr>)) =
     Some [InnerHTML
       ([nl] @ js ''          <span class="badge">fail</span>'' @
        [nl] @ js ''          <div>'' @
        [nl] @ js ''            <p class="lesson"><strong>&lt;script&gt;</strong><br/>'' @ [0x2192] @
          js '' a &amp; b</p>'' @
        [nl] @ js ''            <p class="meta">commit 4fzyo82 '' @ [0x2022] @ js '' 11/2/2026</p>'' @
        [nl] @ js ''          </div>'' @
        [nl] @ js ''        '' )] \<and>
   mottosList (renderHomeLists (page_of
      \<lparr>pending = [],
       entries = [\<lparr>message = js ''<script>'', lesson = js ''a & b'', id' = js ''4fzyo82'',
                   date = js ''11/2/2026''\<rparr>],
       mottos = [js ''<b>Ship</b> it'']\<rparr>)) =
     Some [TextContent (js ''<b>Ship</b> it'')] \<and>
   mottosRoot (renderMottosPage (page_of
      \<lparr>pending = [],
       entries = [\<lparr>message = js ''<script>'', lesson = js ''a & b'', id' = js ''4fzyo82'',
                   date = js ''11/2/2026''\<rparr>],
       mottos = [js ''<b>Ship</b> it'']\<rparr>)) =
     [TextContent (js ''<b>Ship</b> it'')]\<close>
  using
    escapeHtml_literal [where s = \<open>js ''<b onclick="x('y')">&''\<close> and w = "page_of
      \<lparr>pending = [],
       entries = [\<lparr>message = js ''<script>'', lesson = js ''a & b'', id' = js ''4fzyo82'',
                   date = js ''11/2/2026''\<rparr>],
       mottos = [js ''<b>Ship</b> it'']\<rparr>"
      and m = "[]" and l = "[]" and i = "[]" and d = "[]"]
  by (simp add: page_of_def escapeHtml_def escape_map_def renderFailsPage_def
      renderHomeLists_def renderMottosPage_def fails_item_def home_item_def spaces_eval
      nl_def char_defs js_def)

section \<open>Properties of loadState\<close>

lemma truthy_state: "truthy (json_of_state s)"
  by (simp add: json_of_state_def)

lemma loadState_saved: "loadState (saveState (json_of_state s)) = Some (json_of_state s)"
  by (simp add: loadState_def saveState_def JSON_parse_getItem_def truthy_state)

text \<open>
  C5, as the code has it. \<open>loadState\<close> never throws: the SyntaxError of the parser is
  caught. No item, a text that does not parse, and a text that parses to a value that
  counts as false (\<^verbatim>\<open>null\<close>, \<^verbatim>\<open>false\<close>, \<^verbatim>\<open>0\<close>, the empty string) all load as absent; then
  the script takes the seeded default State and saves it at once, and the next load
  returns that State. A text that parses to any other value loads as that value, whatever
  its shape: the script takes it as its State and leaves storage as it is.
\<close>

theorem loadState_startup:
  "loadState Missing = None \<and>
   loadState Unparseable = None \<and>
   loadState (Encodes v) = (if truthy v then Some v else None) \<and>
   (loadState st = None \<longrightarrow>
      startup rnd clock st =
        (json_of_state (defaultState rnd clock), Encodes (json_of_state (defaultState rnd clock))) \<and>
      loadState (snd (startup rnd clock st)) = Some (json_of_state (defaultState rnd clock))) \<and>
   (\<forall>u. loadState st = Some u \<longrightarrow> startup rnd clock st = (u, st))"
proof (intro conjI impI allI)
  show "loadState Missing = None" "loadState Unparseable = None"
    by (simp_all add: loadState_def JSON_parse_getItem_def)
  show "loadState (Encodes v) = (if truthy v then Some v else None)"
    by (simp add: loadState_def JSON_parse_getItem_def)
next
  assume a: "loadState st = None"
  show "startup rnd clock st =
    (json_of_state (defaultState rnd clock), Encodes (json_of_state (defaultState rnd clock)))"
    by (simp add: startup_def a saveState_def Let_def)
  then show "loadState (snd (startup rnd clock st)) = Some (json_of_state (defaultState rnd clock))"
    using loadState_saved [of "defaultState rnd clock"] by (simp add: saveState_def)
next
  fix u
  assume "loadState st = Some u"
  then show "startup rnd clock st = (u, st)"
    by (simp add: startup_def)
qed

theorem loadState_startup_witness:
  "loadState (Encodes JNull) = None \<and>
   loadState (Encodes (JStr [])) = None \<and>
   startup (always (js ''0.4fzyo82mvyr'')) (always (js ''11/2/2026'')) Unparseable =
     (json_of_state (defaultState (always (js ''0.4fzyo82mvyr'')) (always (js ''11/2/2026''))),
      Encodes (json_of_state
        (defaultState (always (js ''0.4fzyo82mvyr'')) (always (js ''11/2/2026''))))) \<and>
   startup (always (js ''0.4fzyo82mvyr'')) (always (js ''11/2/2026''))
     (Encodes (json_of_state \<lparr>pending = [], entries = [], mottos = [js ''Ship it'']\<rparr>)) =
     (json_of_state \<lparr>pending = [], entries = [], mottos = [js ''Ship it'']\<rparr>,
      Encodes (json_of_state \<lparr>pending = [], entries = [], mottos = [js ''Ship it'']\<rparr>))"
  using
    loadState_startup [of JNull Unparseable "always (js ''0.4fzyo82mvyr'')"
      "always (js ''11/2/2026'')"]
    loadState_startup [of "JStr []"
      "Encodes (json_of_state \<lparr>pending = [], entries = [], mottos = [js ''Ship it'']\<rparr>)"
      "always (js ''0.4fzyo82mvyr'')" "always (js ''11/2/2026'')"]
  by (simp add: loadState_def JSON_parse_getItem_def startup_def saveState_def Let_def
      truthy_state)

theorem loadState_incompatible_counterexample:
  "loadState (Encodes (JObj [])) = Some (JObj []) \<and>
   loadState (Encodes (JObj [])) \<noteq> loadState Missing \<and>
   startup (always (js ''0.4fzyo82mvyr'')) (always (js ''11/2/2026'')) (Encodes (JObj [])) =
     (JObj [], Encodes (JObj [])) \<and>
   JObj [] \<noteq>
     json_of_state (defaultState (always (js ''0.4fzyo82mvyr'')) (always (js ''11/2/2026'')))"
  by (simp add: loadState_def JSON_parse_getItem_def startup_def json_of_state_def Let_def)

end
